theory Spec2Isabelle
  imports Complex_Main
begin

section \<open>Numbers in template literals\<close>

text \<open>
  The plot ids are built by the template literal \<^verbatim>\<open>`${x}-${z}`\<close>, which
  formats the loop counters in decimal. Counters are integer valued; a negative
  integer prints with a leading minus sign.
\<close>

definition digit_char :: "nat \<Rightarrow> char" where
  "digit_char d = ''0123456789'' ! d"

fun digits :: "nat \<Rightarrow> string" where
  "digits n = (if n < 10 then [digit_char n]
               else digits (n div 10) @ [digit_char (n mod 10)])"

declare digits.simps [simp del]

definition number_str :: "int \<Rightarrow> string" where
  "number_str i = (if i < 0 then CHR ''-'' # digits (nat (- i)) else digits (nat i))"

definition mk_id :: "int \<Rightarrow> int \<Rightarrow> string" where
  "mk_id x z = number_str x @ ''-'' @ number_str z"

section \<open>Basic grid (VirtualLandMap)\<close>

definition GRID_SIZE_basic :: int where "GRID_SIZE_basic = 10"
definition PLOT_SIZE_basic :: real where "PLOT_SIZE_basic = 1.0"
definition GAP_basic :: real where "GAP_basic = 0.1"

record plot =
  plot_id :: string
  position :: "real \<times> real \<times> real"

definition grid_position :: "int \<Rightarrow> real \<Rightarrow> real \<Rightarrow> int \<Rightarrow> int \<Rightarrow> real \<times> real \<times> real" where
  "grid_position GRID_SIZE PLOT_SIZE GAP x z =
     ((real_of_int x - real_of_int GRID_SIZE / 2) * (PLOT_SIZE + GAP),
      0,
      (real_of_int z - real_of_int GRID_SIZE / 2) * (PLOT_SIZE + GAP))"

text \<open>The inner loop \<^verbatim>\<open>for (let z = 0; z < GRID_SIZE; z++) plots.push(...)\<close>.\<close>

function plots_loop_z :: "int \<Rightarrow> real \<Rightarrow> real \<Rightarrow> int \<Rightarrow> int \<Rightarrow> plot list \<Rightarrow> plot list" where
  "plots_loop_z GRID_SIZE PLOT_SIZE GAP x z plots =
     (if z < GRID_SIZE
      then plots_loop_z GRID_SIZE PLOT_SIZE GAP x (z + 1)
             (plots @ [\<lparr>plot_id = mk_id x z,
                        position = grid_position GRID_SIZE PLOT_SIZE GAP x z\<rparr>])
      else plots)"
  by pat_completeness auto
termination
  by (relation "measure (\<lambda>(GRID_SIZE, PLOT_SIZE, GAP, x, z, plots). nat (GRID_SIZE - z))") auto

declare plots_loop_z.simps [simp del]

text \<open>The outer loop \<^verbatim>\<open>for (let x = 0; x < GRID_SIZE; x++)\<close>.\<close>

function plots_loop_x :: "int \<Rightarrow> real \<Rightarrow> real \<Rightarrow> int \<Rightarrow> plot list \<Rightarrow> plot list" where
  "plots_loop_x GRID_SIZE PLOT_SIZE GAP x plots =
     (if x < GRID_SIZE
      then plots_loop_x GRID_SIZE PLOT_SIZE GAP (x + 1)
             (plots_loop_z GRID_SIZE PLOT_SIZE GAP x 0 plots)
      else plots)"
  by pat_completeness auto
termination
  by (relation "measure (\<lambda>(GRID_SIZE, PLOT_SIZE, GAP, x, plots). nat (GRID_SIZE - x))") auto

declare plots_loop_x.simps [simp del]

definition plots :: "int \<Rightarrow> real \<Rightarrow> real \<Rightarrow> plot list" where
  "plots GRID_SIZE PLOT_SIZE GAP = plots_loop_x GRID_SIZE PLOT_SIZE GAP 0 []"

definition VirtualLandMap_plots :: "plot list" where
  "VirtualLandMap_plots = plots GRID_SIZE_basic PLOT_SIZE_basic GAP_basic"

text \<open>
  The material colour and the emissive colour of the basic \<^verbatim>\<open>LandPlot\<close>. The
  basic records carry no category: there is one base colour, commented
  \<^verbatim>\<open>Dark grey (Unsold)\<close> in the source.
\<close>

definition baseColor :: string where "baseColor = ''#1a1a1a''"
definition hoverColor :: string where "hoverColor = ''#00f3ff''"
definition selectedColor :: string where "selectedColor = ''#bd00ff''"

definition LandPlot_color :: "bool \<Rightarrow> bool \<Rightarrow> string" where
  "LandPlot_color isSelected hov =
     (if isSelected then selectedColor else if hov then hoverColor else baseColor)"

definition LandPlot_emissive :: "bool \<Rightarrow> bool \<Rightarrow> string" where
  "LandPlot_emissive isSelected hov =
     (if isSelected then selectedColor else if hov then hoverColor else ''#000'')"

section \<open>Interaction state of the grid scenes\<close>

text \<open>
  \<^verbatim>\<open>selectedPlot\<close> is the scene-wide \<^verbatim>\<open>useState(null)\<close>; every
  \<^verbatim>\<open>LandPlot\<close> keeps its own \<^verbatim>\<open>hovered\<close> flag, collected here as the set of
  ids whose flag is set. The handlers are \<^verbatim>\<open>onClick(id)\<close> =
  \<^verbatim>\<open>setSelectedPlot(id)\<close>, \<^verbatim>\<open>setHover(true)\<close> and \<^verbatim>\<open>setHover(false)\<close>.
\<close>

record scene =
  selectedPlot :: "string option"
  hovered :: "string set"

datatype event = Click string | PointerOver string | PointerOut string

definition initial_scene :: scene where
  "initial_scene = \<lparr>selectedPlot = None, hovered = {}\<rparr>"

fun handle :: "scene \<Rightarrow> event \<Rightarrow> scene" where
  "handle s (Click i) = s\<lparr>selectedPlot := Some i\<rparr>"
| "handle s (PointerOver i) = s\<lparr>hovered := insert i (hovered s)\<rparr>"
| "handle s (PointerOut i) = s\<lparr>hovered := hovered s - {i}\<rparr>"

text \<open>The prop \<^verbatim>\<open>isSelected={selectedPlot === plot.id}\<close>.\<close>

definition plot_isSelected :: "scene \<Rightarrow> 'a plot_scheme \<Rightarrow> bool" where
  "plot_isSelected s p = (selectedPlot s = Some (plot_id p))"

section \<open>Random draws\<close>

text \<open>
  \<^verbatim>\<open>Math.random()\<close> is an ambient source: the model takes the sequence of values it
  will return and threads the number of draws made so far.
\<close>

type_synonym rng = "nat \<Rightarrow> real"

definition Math_random :: "rng \<Rightarrow> nat \<Rightarrow> real \<times> nat" where
  "Math_random rnd k = (rnd k, k + 1)"

section \<open>Double precision numbers\<close>

text \<open>
  The draws, the thresholds on them and the heights are IEEE 754 double precision
  numbers. A double is modelled by the real number it denotes. A decimal literal
  denotes the double nearest to it, and an arithmetic operation returns the double
  nearest to its exact result, a tie going to the even significand: both are \<open>fl\<close>.
  The doubles around \<open>x\<close> are spaced by \<open>pow2 (ulp_exp x)\<close>: 53 significant bits, and
  the fixed spacing \<open>2\<^sup>-\<^sup>1\<^sup>0\<^sup>7\<^sup>4\<close> below \<open>2\<^sup>-\<^sup>1\<^sup>0\<^sup>2\<^sup>2\<close>. The numbers computed here stay below
  \<open>4\<close>, so overflow to infinity is left out of \<open>fl\<close>; \<open>is_double\<close> holds of the
  finite doubles.
\<close>

definition round_even :: "real \<Rightarrow> int" where
  "round_even x =
     (let f = \<lfloor>x\<rfloor> in
      if x - of_int f < 1/2 then f
      else if 1/2 < x - of_int f then f + 1
      else if even f then f else f + 1)"

text \<open>
  The exponent \<open>e\<close> with \<open>2\<^sup>e \<le> x < 2\<^sup>e\<^sup>+\<^sup>1\<close>, found by at most \<open>n\<close> halvings or
  doublings of \<open>x\<close>; the \<open>2200\<close> steps of \<open>ulp_exp\<close> reach every exponent of a
  double, and a smaller number has the least spacing anyway.
\<close>

fun binade :: "nat \<Rightarrow> real \<Rightarrow> int" where
  "binade 0 x = 0"
| "binade (Suc n) x =
     (if 2 \<le> x then binade n (x / 2) + 1
      else if x < 1 then binade n (2 * x) - 1
      else 0)"

definition pow2 :: "int \<Rightarrow> real" where
  "pow2 e = 2 powi e"

definition ulp_exp :: "real \<Rightarrow> int" where
  "ulp_exp x = max (binade 2200 \<bar>x\<bar> - 52) (- 1074)"

definition fl :: "real \<Rightarrow> real" where
  "fl x = of_int (round_even (x / pow2 (ulp_exp x))) * pow2 (ulp_exp x)"

definition is_double :: "real \<Rightarrow> bool" where
  "is_double x = (fl x = x \<and> \<bar>x\<bar> < pow2 1024)"

section \<open>City grid (VirtualCity)\<close>

definition GRID_SIZE_city :: int where "GRID_SIZE_city = 12"
definition PLOT_SIZE_city :: real where "PLOT_SIZE_city = 1.0"
definition GAP_city :: real where "GAP_city = 0.15"

datatype city_type = Empty | Residential | Commercial

record city_plot = plot +
  type_city :: city_type
  height :: real

text \<open>
  The body of the inner loop: one draw decides the type, a second one the height. The
  thresholds are the doubles of the literals, and \<^verbatim>\<open>Math.random() * 2 + 1.5\<close> and
  \<^verbatim>\<open>Math.random() * 0.8 + 0.5\<close> round after the product and after the sum.
\<close>

definition cityData_cell :: "int \<Rightarrow> real \<Rightarrow> real \<Rightarrow> rng \<Rightarrow> int \<Rightarrow> int \<Rightarrow> nat \<Rightarrow> city_plot \<times> nat" where
  "cityData_cell GRID_SIZE PLOT_SIZE GAP rnd x z k =
     (let (rand, k1) = Math_random rnd k;
          (t, h, k2) =
            (if rand > fl 0.85 then
               (let (r, k') = Math_random rnd k1
                in (Commercial, fl (fl (r * fl 2) + fl 1.5), k'))
             else if rand > fl 0.6 then
               (let (r, k') = Math_random rnd k1
                in (Residential, fl (fl (r * fl 0.8) + fl 0.5), k'))
             else (Empty, 0, k1))
      in (\<lparr>plot_id = mk_id x z,
           position = grid_position GRID_SIZE PLOT_SIZE GAP x z,
           type_city = t, height = h\<rparr>, k2))"

function cityData_loop_z ::
  "int \<Rightarrow> real \<Rightarrow> real \<Rightarrow> rng \<Rightarrow> int \<Rightarrow> int \<Rightarrow> city_plot list \<Rightarrow> nat \<Rightarrow> city_plot list \<times> nat" where
  "cityData_loop_z GRID_SIZE PLOT_SIZE GAP rnd x z acc k =
     (if z < GRID_SIZE
      then cityData_loop_z GRID_SIZE PLOT_SIZE GAP rnd x (z + 1)
             (acc @ [fst (cityData_cell GRID_SIZE PLOT_SIZE GAP rnd x z k)])
             (snd (cityData_cell GRID_SIZE PLOT_SIZE GAP rnd x z k))
      else (acc, k))"
  by pat_completeness auto
termination
  by (relation "measure (\<lambda>(GRID_SIZE, PLOT_SIZE, GAP, rnd, x, z, acc, k). nat (GRID_SIZE - z))") auto

declare cityData_loop_z.simps [simp del]

function cityData_loop_x ::
  "int \<Rightarrow> real \<Rightarrow> real \<Rightarrow> rng \<Rightarrow> int \<Rightarrow> city_plot list \<Rightarrow> nat \<Rightarrow> city_plot list \<times> nat" where
  "cityData_loop_x GRID_SIZE PLOT_SIZE GAP rnd x acc k =
     (if x < GRID_SIZE
      then cityData_loop_x GRID_SIZE PLOT_SIZE GAP rnd (x + 1)
             (fst (cityData_loop_z GRID_SIZE PLOT_SIZE GAP rnd x 0 acc k))
             (snd (cityData_loop_z GRID_SIZE PLOT_SIZE GAP rnd x 0 acc k))
      else (acc, k))"
  by pat_completeness auto
termination
  by (relation "measure (\<lambda>(GRID_SIZE, PLOT_SIZE, GAP, rnd, x, acc, k). nat (GRID_SIZE - x))") auto

declare cityData_loop_x.simps [simp del]

definition cityData :: "int \<Rightarrow> real \<Rightarrow> real \<Rightarrow> rng \<Rightarrow> city_plot list" where
  "cityData GRID_SIZE PLOT_SIZE GAP rnd = fst (cityData_loop_x GRID_SIZE PLOT_SIZE GAP rnd 0 [] 0)"

definition VirtualCity_cityData :: "rng \<Rightarrow> city_plot list" where
  "VirtualCity_cityData rnd = cityData GRID_SIZE_city PLOT_SIZE_city GAP_city rnd"


section \<open>Natural grid (NaturalLandMap)\<close>

definition GRID_SIZE_natural :: int where "GRID_SIZE_natural = 15"
definition PLOT_SIZE_natural :: real where "PLOT_SIZE_natural = 1.0"
definition GAP_natural :: real where "GAP_natural = 0.05"

datatype natural_type = Grass | Dirt | Water

record natural_plot = plot +
  type_natural :: natural_type

text \<open>The body of the inner loop: a draw is made only for a cell that is not water.\<close>

definition landData_cell :: "int \<Rightarrow> real \<Rightarrow> real \<Rightarrow> rng \<Rightarrow> int \<Rightarrow> int \<Rightarrow> nat \<Rightarrow> natural_plot \<times> nat" where
  "landData_cell GRID_SIZE PLOT_SIZE GAP rnd x z k =
     (let (t, k') =
            (if x < 3 \<or> z > 12 then (Water, k)
             else (let (r, k1) = Math_random rnd k
                   in if r > fl 0.9 then (Dirt, k1) else (Grass, k1)))
      in (\<lparr>plot_id = mk_id x z,
           position = grid_position GRID_SIZE PLOT_SIZE GAP x z,
           type_natural = t\<rparr>, k'))"

function landData_loop_z ::
  "int \<Rightarrow> real \<Rightarrow> real \<Rightarrow> rng \<Rightarrow> int \<Rightarrow> int \<Rightarrow> natural_plot list \<Rightarrow> nat \<Rightarrow> natural_plot list \<times> nat" where
  "landData_loop_z GRID_SIZE PLOT_SIZE GAP rnd x z acc k =
     (if z < GRID_SIZE
      then landData_loop_z GRID_SIZE PLOT_SIZE GAP rnd x (z + 1)
             (acc @ [fst (landData_cell GRID_SIZE PLOT_SIZE GAP rnd x z k)])
             (snd (landData_cell GRID_SIZE PLOT_SIZE GAP rnd x z k))
      else (acc, k))"
  by pat_completeness auto
termination
  by (relation "measure (\<lambda>(GRID_SIZE, PLOT_SIZE, GAP, rnd, x, z, acc, k). nat (GRID_SIZE - z))") auto

declare landData_loop_z.simps [simp del]

function landData_loop_x ::
  "int \<Rightarrow> real \<Rightarrow> real \<Rightarrow> rng \<Rightarrow> int \<Rightarrow> natural_plot list \<Rightarrow> nat \<Rightarrow> natural_plot list \<times> nat" where
  "landData_loop_x GRID_SIZE PLOT_SIZE GAP rnd x acc k =
     (if x < GRID_SIZE
      then landData_loop_x GRID_SIZE PLOT_SIZE GAP rnd (x + 1)
             (fst (landData_loop_z GRID_SIZE PLOT_SIZE GAP rnd x 0 acc k))
             (snd (landData_loop_z GRID_SIZE PLOT_SIZE GAP rnd x 0 acc k))
      else (acc, k))"
  by pat_completeness auto
termination
  by (relation "measure (\<lambda>(GRID_SIZE, PLOT_SIZE, GAP, rnd, x, acc, k). nat (GRID_SIZE - x))") auto

declare landData_loop_x.simps [simp del]

definition landData :: "int \<Rightarrow> real \<Rightarrow> real \<Rightarrow> rng \<Rightarrow> natural_plot list" where
  "landData GRID_SIZE PLOT_SIZE GAP rnd = fst (landData_loop_x GRID_SIZE PLOT_SIZE GAP rnd 0 [] 0)"

definition NaturalLandMap_landData :: "rng \<Rightarrow> natural_plot list" where
  "NaturalLandMap_landData rnd = landData GRID_SIZE_natural PLOT_SIZE_natural GAP_natural rnd"




section \<open>Map clone (GoogleMapClone)\<close>

definition MAP_SIZE :: real where "MAP_SIZE = 100"
definition LAND_COUNT :: nat where "LAND_COUNT = 100"

definition names :: "string list" where
  "names = [''Greenwood'', ''Sunnyvale'', ''Riverdale'', ''Highland'', ''Westside'',
            ''Oakwood'', ''Maple'', ''Cedar'', ''Pine'', ''Elm'']"

definition types :: "string list" where
  "types = [''District'', ''Estate'', ''Heights'', ''Park'', ''Grove'', ''Gardens'']"

text \<open>
  \<^verbatim>\<open>`${names[id % names.length]} ${types[id % types.length]} ${id}`\<close>; the ids
  passed are array indices, so \<open>id\<close> is a natural number.
\<close>

definition generateLandName :: "nat \<Rightarrow> string" where
  "generateLandName i =
     names ! (i mod length names) @ '' '' @ types ! (i mod length types) @ '' ''
       @ number_str (int i)"

text \<open>
  The reading of the specification: both word lists indexed by \<open>id mod 10\<close>. An index
  past the end of an array reads \<^verbatim>\<open>undefined\<close>, which a template literal prints
  as that word.
\<close>

definition array_get :: "string list \<Rightarrow> nat \<Rightarrow> string" where
  "array_get xs i = (if i < length xs then xs ! i else ''undefined'')"

definition generateLandName_spec :: "nat \<Rightarrow> string" where
  "generateLandName_spec i =
     array_get names (i mod 10) @ '' '' @ array_get types (i mod 10) @ '' ''
       @ number_str (int i)"

type_synonym point = "real \<times> real"

record land =
  land_id :: nat
  name :: string
  shape :: "point list option"
  color :: string

text \<open>
  The land records. The Voronoi cells come from the d3-delaunay library, which is not
  part of the repository: \<open>cellPolygon\<close> stands for \<^verbatim>\<open>voronoi.cellPolygon\<close>, which
  returns a polygon or \<^verbatim>\<open>null\<close>. The first \<open>2 * LAND_COUNT\<close> draws make the
  points, the following ones decide park or city.
\<close>

definition lands :: "(nat \<Rightarrow> point list option) \<Rightarrow> rng \<Rightarrow> land list" where
  "lands cellPolygon rnd =
     map (\<lambda>i. let isPark = rnd (2 * LAND_COUNT + i) > fl 0.85
               in \<lparr>land_id = i, name = generateLandName i, shape = cellPolygon i,
                   color = (if isPark then ''#C5E8C5'' else ''#F8F9FA'')\<rparr>)
         [0..<LAND_COUNT]"

datatype error = TypeError

text \<open>
  Reading a coordinate of \<^verbatim>\<open>shape[i]\<close>: past the end \<^verbatim>\<open>shape[i]\<close> is
  \<^verbatim>\<open>undefined\<close> and the property access on it throws.
\<close>

definition shape_at :: "point list \<Rightarrow> nat \<Rightarrow> error + point" where
  "shape_at pts i = (if i < length pts then Inr (pts ! i) else Inl TypeError)"

text \<open>The guard \<^verbatim>\<open>!shape || shape.length < 3\<close>.\<close>

definition shape_broken :: "point list option \<Rightarrow> bool" where
  "shape_broken sh = (case sh of None \<Rightarrow> True | Some pts \<Rightarrow> length pts < 3)"

text \<open>
  What \<^verbatim>\<open>LandPolygon\<close> returns when it renders: the path of the
  \<^verbatim>\<open>THREE.Shape\<close>, the material colour, the coordinates of the border line and
  the label shown on selection.
\<close>

record polygon_element =
  path :: "point list"
  material_color :: string
  border :: "real list"
  label :: "((real \<times> real \<times> real) \<times> string) option"

text \<open>The loop \<^verbatim>\<open>for (let i = 1; i < shape.length; i++) s.lineTo(...)\<close>.\<close>

function lineTo_loop :: "point list \<Rightarrow> nat \<Rightarrow> point list \<Rightarrow> error + point list" where
  "lineTo_loop pts i s =
     (if i < length pts
      then (case shape_at pts i of
              Inl e \<Rightarrow> Inl e
            | Inr p \<Rightarrow> lineTo_loop pts (i + 1) (s @ [p]))
      else Inr s)"
  by pat_completeness auto
termination
  by (relation "measure (\<lambda>(pts, i, s). length pts - i)") auto

declare lineTo_loop.simps [simp del]

definition LandPolygon :: "point list option \<Rightarrow> string \<Rightarrow> string \<Rightarrow> bool \<Rightarrow> error + polygon_element option" where
  "LandPolygon sh col nm isSelected =
     (if shape_broken sh then Inr None
      else (case sh of
              None \<Rightarrow> Inl TypeError
            | Some pts \<Rightarrow>
                (case shape_at pts 0 of
                   Inl e \<Rightarrow> Inl e
                 | Inr p0 \<Rightarrow>
                     (case lineTo_loop pts 1 [p0] of
                        Inl e \<Rightarrow> Inl e
                      | Inr s \<Rightarrow>
                          Inr (Some \<lparr>path = s,
                                     material_color = (if isSelected then ''#4285F4'' else col),
                                     border = concat (map (\<lambda>(a, b). [a, b]) pts) @ [fst p0, snd p0],
                                     label = (if isSelected then Some ((fst p0, 2, snd p0), nm)
                                              else None)\<rparr>)))))"

text \<open>
  \<^verbatim>\<open>lands.map((land) => <LandPolygon key={land.id} ... />)\<close>: the rendered
  children, each under its key; a component that throws aborts the render.
\<close>

fun render_lands :: "nat option \<Rightarrow> land list \<Rightarrow> error + (nat \<times> polygon_element) list" where
  "render_lands selectedId [] = Inr []"
| "render_lands selectedId (l # ls) =
     (case LandPolygon (shape l) (color l) (name l) (selectedId = Some (land_id l)) of
        Inl e \<Rightarrow> Inl e
      | Inr r \<Rightarrow>
          (case render_lands selectedId ls of
             Inl e \<Rightarrow> Inl e
           | Inr rs \<Rightarrow> Inr (case r of None \<Rightarrow> rs | Some el \<Rightarrow> (land_id l, el) # rs)))"

text \<open>
  The state of \<^verbatim>\<open>GoogleMapClone\<close>: \<^verbatim>\<open>selectedId\<close>, \<^verbatim>\<open>zoom\<close> and the
  memoised \<^verbatim>\<open>lands\<close>. The mesh of a \<^verbatim>\<open>LandPolygon\<close> has an
  \<^verbatim>\<open>onClick\<close> handler and no pointer-over or pointer-out handler; the two zoom
  buttons call \<^verbatim>\<open>setZoom\<close>.
\<close>

record map_state =
  selectedId :: "nat option"
  zoom :: int
  map_lands :: "land list"

datatype map_event =
  MapClick nat | MapPointerEnter nat | MapPointerLeave nat | ZoomIn | ZoomOut

definition initial_map_state :: "land list \<Rightarrow> map_state" where
  "initial_map_state ls = \<lparr>selectedId = None, zoom = 15, map_lands = ls\<rparr>"

fun map_handle :: "map_state \<Rightarrow> map_event \<Rightarrow> map_state" where
  "map_handle s (MapClick i) = s\<lparr>selectedId := Some i\<rparr>"
| "map_handle s (MapPointerEnter i) = s"
| "map_handle s (MapPointerLeave i) = s"
| "map_handle s ZoomIn = s\<lparr>zoom := min (zoom s + 5) 50\<rparr>"
| "map_handle s ZoomOut = s\<lparr>zoom := max (zoom s - 5) 10\<rparr>"

section \<open>Auxiliary notions for the proofs\<close>

text \<open>Reading a decimal numeral back, and the ids of the grid from row \<open>x\<close> on.\<close>

definition undigits :: "string \<Rightarrow> nat" where
  "undigits s = foldl (\<lambda>a c. 10 * a + (of_char c - 48)) 0 s"

definition grid_ids :: "int \<Rightarrow> int \<Rightarrow> string list" where
  "grid_ids x N = map (\<lambda>(x, z). mk_id x z) (List.product [x..N - 1] [0..N - 1])"

text \<open>The height ranges of the city generator, by type.\<close>

definition height_ok :: "city_plot \<Rightarrow> bool" where
  "height_ok p =
     (case type_city p of
        Empty \<Rightarrow> height p = 0
      | Residential \<Rightarrow> 0.5 \<le> height p \<and> height p < 1.3
      | Commercial \<Rightarrow> 1.5 \<le> height p \<and> height p \<le> 3.5)"

text \<open>
  Two sequences of draws for concrete runs, all of them doubles in \<open>[0, 1)\<close>; the
  second one continues with the largest double below \<open>1\<close>.
\<close>

definition example_draws :: rng where
  "example_draws k = (if k = 0 then 7/8 else if k = 2 then 5/8 else 1/2)"

definition top_draws :: rng where
  "top_draws k = (if k = 0 then 7/8 else 1 - 1 / 2 ^ 53)"

text \<open>Three land records for concrete runs: no shape, two points, a triangle.\<close>

definition example_lands :: "land list" where
  "example_lands =
     [\<lparr>land_id = 0, name = generateLandName 0, shape = None, color = ''#F8F9FA''\<rparr>,
      \<lparr>land_id = 1, name = generateLandName 1, shape = Some [(0, 0), (1, 0)],
        color = ''#C5E8C5''\<rparr>,
      \<lparr>land_id = 2, name = generateLandName 2, shape = Some [(0, 0), (1, 0), (0, 1)],
        color = ''#F8F9FA''\<rparr>]"

section \<open>Decimal ids are injective\<close>

lemma digit_char_cases:
  "d < 10 \<Longrightarrow> d = 0 \<or> d = 1 \<or> d = 2 \<or> d = 3 \<or> d = 4 \<or> d = 5 \<or> d = 6 \<or> d = 7 \<or> d = 8 \<or> d = (9::nat)"
  by arith

lemma of_char_digit_char: "d < 10 \<Longrightarrow> of_char (digit_char d) = 48 + d"
  using digit_char_cases [of d] by (auto simp: digit_char_def)

lemma digit_char_not_dash: "d < 10 \<Longrightarrow> digit_char d \<noteq> CHR ''-''"
  using digit_char_cases [of d] by (auto simp: digit_char_def)

lemma dash_notin_digits: "CHR ''-'' \<notin> set (digits n)"
proof (induction n rule: digits.induct)
  case (1 n)
  show ?case
  proof (cases "n < 10")
    case True
    then show ?thesis using digit_char_not_dash [of n] by (simp add: digits.simps)
  next
    case False
    then show ?thesis using 1 digit_char_not_dash [of "n mod 10"]
      by (subst digits.simps) simp
  qed
qed

lemma undigits_digits: "undigits (digits n) = n"
proof (induction n rule: digits.induct)
  case (1 n)
  show ?case
  proof (cases "n < 10")
    case True
    then show ?thesis by (simp add: digits.simps undigits_def of_char_digit_char)
  next
    case False
    then have "undigits (digits (n div 10)) = n div 10" using 1 by simp
    then show ?thesis using False
      by (subst digits.simps) (simp add: undigits_def of_char_digit_char)
  qed
qed

lemma digits_inj: "digits m = digits n \<Longrightarrow> m = n"
  by (metis undigits_digits)

lemma split_at_sep:
  "a @ c # b = a' @ c # b' \<Longrightarrow> c \<notin> set a \<Longrightarrow> c \<notin> set a' \<Longrightarrow> a = a' \<and> b = b'"
proof (induction a arbitrary: a')
  case Nil
  then show ?case by (cases a') auto
next
  case (Cons x a)
  then show ?case by (cases a') auto
qed

lemma mk_id_inj:
  assumes "mk_id x z = mk_id x' z'" "0 \<le> x" "0 \<le> z" "0 \<le> x'" "0 \<le> z'"
  shows "x = x' \<and> z = z'"
proof -
  from assms have "digits (nat x) @ CHR ''-'' # digits (nat z)
      = digits (nat x') @ CHR ''-'' # digits (nat z')"
    by (simp add: mk_id_def number_str_def)
  then have "digits (nat x) = digits (nat x') \<and> digits (nat z) = digits (nat z')"
    by (rule split_at_sep) (rule dash_notin_digits)+
  then have "nat x = nat x' \<and> nat z = nat z'" by (auto dest: digits_inj)
  with assms show ?thesis by auto
qed

lemma grid_ids_rec:
  "x < N \<Longrightarrow> grid_ids x N = map (mk_id x) [0..N - 1] @ grid_ids (x + 1) N"
proof -
  assume "x < N"
  then have "[x..N - 1] = x # [x + 1..N - 1]" by (simp add: upto_rec1)
  then show ?thesis by (simp add: grid_ids_def comp_def)
qed

lemma grid_ids_done: "\<not> x < N \<Longrightarrow> grid_ids x N = []"
  by (simp add: grid_ids_def)

lemma distinct_grid_ids: "0 \<le> x \<Longrightarrow> distinct (grid_ids x N)"
  unfolding grid_ids_def
  by (rule distinct_map [THEN iffD2]) (auto simp: distinct_product inj_on_def dest: mk_id_inj)

lemma length_grid_ids: "0 < N \<Longrightarrow> length (grid_ids 0 N) = nat (N * N)"
  by (simp add: grid_ids_def nat_mult_distrib)

lemma set_grid_ids:
  "set (grid_ids 0 N) = (\<lambda>(x, z). mk_id x z) ` ({0..<N} \<times> {0..<N})"
proof -
  have "{0..N - 1} = {0..<N}" by auto
  then show ?thesis by (simp add: grid_ids_def)
qed

lemma plots_loop_z_ids:
  "map plot_id (plots_loop_z N s g x z acc) = map plot_id acc @ map (mk_id x) [z..N - 1]"
proof (induction N s g x z acc rule: plots_loop_z.induct)
  case (1 N s g x z acc)
  show ?case
  proof (cases "z < N")
    case True
    then have "[z..N - 1] = z # [z + 1..N - 1]" by (simp add: upto_rec1)
    with True 1 show ?thesis by (subst plots_loop_z.simps) simp
  next
    case False
    then show ?thesis by (subst plots_loop_z.simps) simp
  qed
qed

lemma plots_loop_x_ids:
  "map plot_id (plots_loop_x N s g x acc) = map plot_id acc @ grid_ids x N"
proof (induction N s g x acc rule: plots_loop_x.induct)
  case (1 N s g x acc)
  show ?case
  proof (cases "x < N")
    case True
    with 1 show ?thesis
      by (subst plots_loop_x.simps) (simp add: plots_loop_z_ids grid_ids_rec)
  next
    case False
    then show ?thesis by (subst plots_loop_x.simps) (simp add: grid_ids_done)
  qed
qed

lemma plots_ids: "map plot_id (plots N s g) = grid_ids 0 N"
  by (simp add: plots_def plots_loop_x_ids)

lemma cityData_cell_id: "plot_id (fst (cityData_cell N s g rnd x z k)) = mk_id x z"
  by (simp add: cityData_cell_def Math_random_def Let_def split: prod.splits)

lemma cityData_loop_z_ids:
  "map plot_id (fst (cityData_loop_z N s g rnd x z acc k))
     = map plot_id acc @ map (mk_id x) [z..N - 1]"
proof (induction N s g rnd x z acc k rule: cityData_loop_z.induct)
  case (1 N s g rnd x z acc k)
  show ?case
  proof (cases "z < N")
    case True
    then have "[z..N - 1] = z # [z + 1..N - 1]" by (simp add: upto_rec1)
    with True 1 show ?thesis
      by (subst cityData_loop_z.simps) (simp add: cityData_cell_id)
  next
    case False
    then show ?thesis by (subst cityData_loop_z.simps) simp
  qed
qed

lemma cityData_loop_x_ids:
  "map plot_id (fst (cityData_loop_x N s g rnd x acc k)) = map plot_id acc @ grid_ids x N"
proof (induction N s g rnd x acc k rule: cityData_loop_x.induct)
  case (1 N s g rnd x acc k)
  show ?case
  proof (cases "x < N")
    case True
    with 1 show ?thesis
      by (subst cityData_loop_x.simps) (simp add: cityData_loop_z_ids grid_ids_rec)
  next
    case False
    then show ?thesis by (subst cityData_loop_x.simps) (simp add: grid_ids_done)
  qed
qed

lemma cityData_ids: "map plot_id (cityData N s g rnd) = grid_ids 0 N"
  by (simp add: cityData_def cityData_loop_x_ids)

lemma landData_cell_id: "plot_id (fst (landData_cell N s g rnd x z k)) = mk_id x z"
  by (simp add: landData_cell_def Math_random_def Let_def split: prod.splits)

lemma landData_cell_water:
  "type_natural (fst (landData_cell N s g rnd x z k)) = Water \<longleftrightarrow> x < 3 \<or> z > 12"
  by (simp add: landData_cell_def Math_random_def Let_def split: prod.splits)

section \<open>The ids produced by the generators\<close>

lemma landData_loop_z_ids:
  "map plot_id (fst (landData_loop_z N s g rnd x z acc k))
     = map plot_id acc @ map (mk_id x) [z..N - 1]"
proof (induction N s g rnd x z acc k rule: landData_loop_z.induct)
  case (1 N s g rnd x z acc k)
  show ?case
  proof (cases "z < N")
    case True
    then have "[z..N - 1] = z # [z + 1..N - 1]" by (simp add: upto_rec1)
    with True 1 show ?thesis
      by (subst landData_loop_z.simps) (simp add: landData_cell_id)
  next
    case False
    then show ?thesis by (subst landData_loop_z.simps) simp
  qed
qed

lemma landData_loop_x_ids:
  "map plot_id (fst (landData_loop_x N s g rnd x acc k)) = map plot_id acc @ grid_ids x N"
proof (induction N s g rnd x acc k rule: landData_loop_x.induct)
  case (1 N s g rnd x acc k)
  show ?case
  proof (cases "x < N")
    case True
    with 1 show ?thesis
      by (subst landData_loop_x.simps) (simp add: landData_loop_z_ids grid_ids_rec)
  next
    case False
    then show ?thesis by (subst landData_loop_x.simps) (simp add: grid_ids_done)
  qed
qed

lemma landData_ids: "map plot_id (landData N s g rnd) = grid_ids 0 N"
  by (simp add: landData_def landData_loop_x_ids)

lemma nonpositive_grid_ids: "N \<le> 0 \<Longrightarrow> grid_ids 0 N = []"
  by (simp add: grid_ids_def)

lemmas eval_basic = plots_def plots_loop_x.simps plots_loop_z.simps grid_position_def
  mk_id_def number_str_def digits.simps digit_char_def

lemmas eval_city = cityData_def cityData_loop_x.simps cityData_loop_z.simps cityData_cell_def
  Math_random_def grid_position_def mk_id_def number_str_def digits.simps digit_char_def

section \<open>Grid generation\<close>

text \<open>
  Claim C1. For every integer grid size \<open>N > 0\<close>, any plot size and any gap (and, for
  the city and natural grids, any sequence of random draws), each grid generator
  produces exactly \<open>N\<^sup>2\<close> records, their ids are pairwise distinct and they are
  exactly the strings \<open>x-z\<close> for \<open>x\<close> and \<open>z\<close> in \<open>[0, N)\<close>. For \<open>N \<le> 0\<close> each
  generator returns the empty list. The loop counters are taken as unbounded
  integers.
\<close>

theorem grid_generators_count_and_ids:
  "(0 < N \<longrightarrow>
      length (plots N PLOT_SIZE GAP) = nat (N * N)
    \<and> distinct (map plot_id (plots N PLOT_SIZE GAP))
    \<and> set (map plot_id (plots N PLOT_SIZE GAP)) = (\<lambda>(x, z). mk_id x z) ` ({0..<N} \<times> {0..<N})
    \<and> length (cityData N PLOT_SIZE GAP rnd) = nat (N * N)
    \<and> distinct (map plot_id (cityData N PLOT_SIZE GAP rnd))
    \<and> set (map plot_id (cityData N PLOT_SIZE GAP rnd)) = (\<lambda>(x, z). mk_id x z) ` ({0..<N} \<times> {0..<N})
    \<and> length (landData N PLOT_SIZE GAP rnd) = nat (N * N)
    \<and> distinct (map plot_id (landData N PLOT_SIZE GAP rnd))
    \<and> set (map plot_id (landData N PLOT_SIZE GAP rnd)) = (\<lambda>(x, z). mk_id x z) ` ({0..<N} \<times> {0..<N}))
  \<and> (N \<le> 0 \<longrightarrow>
      plots N PLOT_SIZE GAP = [] \<and> cityData N PLOT_SIZE GAP rnd = []
    \<and> landData N PLOT_SIZE GAP rnd = [])"
proof (intro conjI impI)
  assume pos: "0 < N"
  have "length (map plot_id (plots N PLOT_SIZE GAP)) = nat (N * N)"
    using pos by (simp only: plots_ids length_grid_ids)
  then show "length (plots N PLOT_SIZE GAP) = nat (N * N)" by simp
  have "length (map plot_id (cityData N PLOT_SIZE GAP rnd)) = nat (N * N)"
    using pos by (simp only: cityData_ids length_grid_ids)
  then show "length (cityData N PLOT_SIZE GAP rnd) = nat (N * N)" by simp
  have "length (map plot_id (landData N PLOT_SIZE GAP rnd)) = nat (N * N)"
    using pos by (simp only: landData_ids length_grid_ids)
  then show "length (landData N PLOT_SIZE GAP rnd) = nat (N * N)" by simp
  show "distinct (map plot_id (plots N PLOT_SIZE GAP))"
    by (simp only: plots_ids) (simp add: distinct_grid_ids)
  show "distinct (map plot_id (cityData N PLOT_SIZE GAP rnd))"
    by (simp only: cityData_ids) (simp add: distinct_grid_ids)
  show "distinct (map plot_id (landData N PLOT_SIZE GAP rnd))"
    by (simp only: landData_ids) (simp add: distinct_grid_ids)
  show "set (map plot_id (plots N PLOT_SIZE GAP)) = (\<lambda>(x, z). mk_id x z) ` ({0..<N} \<times> {0..<N})"
    by (simp only: plots_ids set_grid_ids)
  show "set (map plot_id (cityData N PLOT_SIZE GAP rnd)) = (\<lambda>(x, z). mk_id x z) ` ({0..<N} \<times> {0..<N})"
    by (simp only: cityData_ids set_grid_ids)
  show "set (map plot_id (landData N PLOT_SIZE GAP rnd)) = (\<lambda>(x, z). mk_id x z) ` ({0..<N} \<times> {0..<N})"
    by (simp only: landData_ids set_grid_ids)
next
  assume "N \<le> 0"
  then have e: "grid_ids 0 N = []" by (rule nonpositive_grid_ids)
  show "plots N PLOT_SIZE GAP = []" using plots_ids [of N PLOT_SIZE GAP] e by simp
  show "cityData N PLOT_SIZE GAP rnd = []" using cityData_ids [of N PLOT_SIZE GAP rnd] e by simp
  show "landData N PLOT_SIZE GAP rnd = []" using landData_ids [of N PLOT_SIZE GAP rnd] e by simp
qed

theorem grid_generators_count_and_ids_witness:
  "(0::int) < 2
   \<and> length (plots 2 1 (1/10)) = 4
   \<and> distinct (map plot_id (plots 2 1 (1/10)))
   \<and> length (cityData 2 1 (15/100) (\<lambda>k. 1/2)) = 4
   \<and> distinct (map plot_id (cityData 2 1 (15/100) (\<lambda>k. 1/2)))
   \<and> length (landData 2 1 (5/100) (\<lambda>k. 1/2)) = 4
   \<and> distinct (map plot_id (landData 2 1 (5/100) (\<lambda>k. 1/2)))
   \<and> (-3::int) \<le> 0
   \<and> plots (-3) 1 (1/10) = [] \<and> cityData (-3) 1 (15/100) (\<lambda>k. 1/2) = []
   \<and> landData (-3) 1 (5/100) (\<lambda>k. 1/2) = []"
  using grid_generators_count_and_ids [of 2 1 "1/10" "\<lambda>k. 1/2"]
    grid_generators_count_and_ids [of 2 1 "15/100" "\<lambda>k. 1/2"]
    grid_generators_count_and_ids [of 2 1 "5/100" "\<lambda>k. 1/2"]
    grid_generators_count_and_ids [of "-3" 1 "1/10" "\<lambda>k. 1/2"]
    grid_generators_count_and_ids [of "-3" 1 "15/100" "\<lambda>k. 1/2"]
    grid_generators_count_and_ids [of "-3" 1 "5/100" "\<lambda>k. 1/2"]
  by simp

lemma plots_2x2:
  "plots 2 1 (1/10) =
     [\<lparr>plot_id = ''0-0'', position = (- (11/10), 0, - (11/10))\<rparr>,
      \<lparr>plot_id = ''0-1'', position = (- (11/10), 0, 0)\<rparr>,
      \<lparr>plot_id = ''1-0'', position = (0, 0, - (11/10))\<rparr>,
      \<lparr>plot_id = ''1-1'', position = (0, 0, 0)\<rparr>]"
  by (simp add: eval_basic)

text \<open>
  Claim C2, as stated, fails: with \<open>N = 2\<close>, plot size \<open>1\<close> and gap \<open>0.1\<close> the
  positions are not \<open>(\<plusminus>0.55, 0, \<plusminus>0.55)\<close>. The source offsets by \<open>N / 2\<close>, not by
  \<open>(N - 1) / 2\<close>, so the grid is not centred on the origin.
\<close>

theorem basic_grid_2x2_counterexample:
  "map position (plots 2 1 (1/10)) \<noteq>
     [(- (55/100), 0, - (55/100)), (- (55/100), 0, 55/100),
      (55/100, 0, - (55/100)), (55/100, 0, 55/100)]"
  by (simp add: plots_2x2)

text \<open>
  Claim C2, amended. The basic generator with \<open>N = 2\<close>, plot size \<open>1\<close> and gap
  \<open>0.1\<close> yields exactly the four records with ids \<open>0-0\<close>, \<open>0-1\<close>, \<open>1-0\<close>, \<open>1-1\<close>
  at positions \<open>(-1.1, 0, -1.1)\<close>, \<open>(-1.1, 0, 0)\<close>, \<open>(0, 0, -1.1)\<close>, \<open>(0, 0, 0)\<close>.
  The records carry no category field; every plot that is neither selected nor
  hovered is drawn in the one base colour, the colour of unsold land.
\<close>

theorem basic_grid_2x2:
  "plots 2 1 (1/10) =
     [\<lparr>plot_id = ''0-0'', position = (- (11/10), 0, - (11/10))\<rparr>,
      \<lparr>plot_id = ''0-1'', position = (- (11/10), 0, 0)\<rparr>,
      \<lparr>plot_id = ''1-0'', position = (0, 0, - (11/10))\<rparr>,
      \<lparr>plot_id = ''1-1'', position = (0, 0, 0)\<rparr>]
   \<and> LandPlot_color False False = ''#1a1a1a''"
  by (simp add: plots_2x2 LandPlot_color_def baseColor_def)

section \<open>Colours\<close>



section \<open>Water in the natural grid\<close>

lemma landData_loop_z_water:
  "map (\<lambda>p. (plot_id p, type_natural p = Water)) (fst (landData_loop_z N s g rnd x z acc k))
     = map (\<lambda>p. (plot_id p, type_natural p = Water)) acc
       @ map (\<lambda>z. (mk_id x z, x < 3 \<or> z > 12)) [z..N - 1]"
proof (induction N s g rnd x z acc k rule: landData_loop_z.induct)
  case (1 N s g rnd x z acc k)
  show ?case
  proof (cases "z < N")
    case True
    then have "[z..N - 1] = z # [z + 1..N - 1]" by (simp add: upto_rec1)
    with True 1 show ?thesis
      by (subst landData_loop_z.simps) (simp add: landData_cell_id landData_cell_water)
  next
    case False
    then show ?thesis by (subst landData_loop_z.simps) simp
  qed
qed

lemma landData_loop_x_water:
  "map (\<lambda>p. (plot_id p, type_natural p = Water)) (fst (landData_loop_x N s g rnd x acc k))
     = map (\<lambda>p. (plot_id p, type_natural p = Water)) acc
       @ map (\<lambda>(x, z). (mk_id x z, x < 3 \<or> z > 12)) (List.product [x..N - 1] [0..N - 1])"
proof (induction N s g rnd x acc k rule: landData_loop_x.induct)
  case (1 N s g rnd x acc k)
  show ?case
  proof (cases "x < N")
    case True
    then have "[x..N - 1] = x # [x + 1..N - 1]" by (simp add: upto_rec1)
    with True 1 show ?thesis
      by (subst landData_loop_x.simps) (simp add: landData_loop_z_water comp_def)
  next
    case False
    then show ?thesis by (subst landData_loop_x.simps) simp
  qed
qed

text \<open>
  Claim C4. Whatever the random draws, the natural generator's records are, in
  order, those of the cells \<open>(x, z)\<close> of the grid, the record of cell \<open>(x, z)\<close> has
  id \<open>x-z\<close>, and it is water exactly when \<open>x < 3\<close> or \<open>z > 12\<close>.
\<close>

theorem natural_water_iff_coordinates:
  "map (\<lambda>p. (plot_id p, type_natural p = Water)) (landData N PLOT_SIZE GAP rnd)
     = map (\<lambda>(x, z). (mk_id x z, x < 3 \<or> z > 12)) (List.product [0..N - 1] [0..N - 1])"
  by (simp add: landData_def landData_loop_x_water)

section \<open>Rounding to the nearest double\<close>

lemma pow2_pos: "0 < pow2 e"
  by (simp add: pow2_def)

lemma pow2_less: "a < b \<Longrightarrow> pow2 a < pow2 b"
  unfolding pow2_def by (rule power_int_strict_increasing) simp_all

lemma pow2_le: "a \<le> b \<Longrightarrow> pow2 a \<le> pow2 b"
  unfolding pow2_def by (rule power_int_increasing) simp_all

lemma pow2_less_D: "pow2 a < pow2 b \<Longrightarrow> a < b"
  using pow2_le [of b a] by (cases "a < b") auto

lemma pow2_0: "pow2 0 = 1"
  by (simp add: pow2_def)

lemma pow2_Suc: "pow2 (e + 1) = 2 * pow2 e"
  by (simp add: pow2_def power_int_add)

lemma pow2_split: "pow2 (a + b) = pow2 a * pow2 b"
  by (simp add: pow2_def power_int_add)

lemma pow2_of_int: "0 \<le> e \<Longrightarrow> pow2 e = of_int (2 ^ nat e)"
  by (simp add: pow2_def power_int_def)

lemma round_even_floor: "\<lfloor>x\<rfloor> \<le> round_even x \<and> round_even x \<le> \<lfloor>x\<rfloor> + 1"
  by (simp add: round_even_def Let_def)

lemma round_even_of_int: "round_even (of_int n) = n"
  by (simp add: round_even_def)

lemma round_even_ge: "of_int n \<le> x \<Longrightarrow> n \<le> round_even x"
proof -
  assume "of_int n \<le> x"
  then have "n \<le> \<lfloor>x\<rfloor>" by (simp add: le_floor_iff)
  with round_even_floor [of x] show ?thesis by linarith
qed

lemma round_even_le: "x \<le> of_int n \<Longrightarrow> round_even x \<le> n"
proof (cases "x = of_int n")
  case True
  then show ?thesis by (simp add: round_even_of_int)
next
  case False
  assume "x \<le> of_int n"
  with False have "x < of_int n" by simp
  then have "\<lfloor>x\<rfloor> < n" by (simp add: floor_less_iff)
  with round_even_floor [of x] show ?thesis by linarith
qed

lemma round_even_mono: "x \<le> y \<Longrightarrow> round_even x \<le> round_even y"
proof (cases "\<lfloor>x\<rfloor> < \<lfloor>y\<rfloor>")
  case True
  with round_even_floor [of x] round_even_floor [of y] show ?thesis by linarith
next
  case False
  assume xy: "x \<le> y"
  then have "\<lfloor>x\<rfloor> \<le> \<lfloor>y\<rfloor>" by (rule floor_mono)
  with False have eq: "\<lfloor>x\<rfloor> = \<lfloor>y\<rfloor>" by simp
  with xy show ?thesis by (auto simp: round_even_def Let_def)
qed

lemma binade_spec:
  "pow2 (- int n) \<le> x \<Longrightarrow> x < pow2 (int n + 1)
   \<Longrightarrow> pow2 (binade n x) \<le> x \<and> x < pow2 (binade n x + 1)"
proof (induction n arbitrary: x)
  case 0
  then show ?case using pow2_Suc [of 0] by (simp add: pow2_0)
next
  case (Suc n)
  have "int (Suc n) + 1 = (int n + 1) + 1" by simp
  then have A: "pow2 (int (Suc n) + 1) = 2 * pow2 (int n + 1)" by (metis pow2_Suc)
  have "- int n = - int (Suc n) + 1" by simp
  then have B: "pow2 (- int n) = 2 * pow2 (- int (Suc n))" by (metis pow2_Suc)
  show ?case
  proof (cases "2 \<le> x")
    case True
    define b where "b = binade n (x / 2)"
    have "pow2 (- int n) \<le> pow2 0" by (rule pow2_le) simp
    with True have lo: "pow2 (- int n) \<le> x / 2" by (simp add: pow2_0)
    from Suc.prems(2) A have hi: "x / 2 < pow2 (int n + 1)" by simp
    have eq: "binade (Suc n) x = b + 1" using True by (simp add: b_def)
    from Suc.IH [OF lo hi] have "pow2 b \<le> x / 2" and "x / 2 < pow2 (b + 1)"
      by (simp_all add: b_def)
    moreover note pow2_Suc [of b] pow2_Suc [of "b + 1"]
    ultimately show ?thesis unfolding eq by (intro conjI) linarith+
  next
    case False
    show ?thesis
    proof (cases "x < 1")
      case True
      define b where "b = binade n (2 * x)"
      from Suc.prems(1) B have lo: "pow2 (- int n) \<le> 2 * x" by simp
      have "pow2 (0 + 1) \<le> pow2 (int n + 1)" by (rule pow2_le) simp
      with True have hi: "2 * x < pow2 (int n + 1)" using pow2_Suc [of 0] by (simp add: pow2_0)
      have eq: "binade (Suc n) x = b - 1" using True False by (simp add: b_def)
      have c: "pow2 (b - 1 + 1) = 2 * pow2 (b - 1)" by (rule pow2_Suc)
      then have d: "pow2 b = 2 * pow2 (b - 1)" by simp
      from Suc.IH [OF lo hi] have "pow2 b \<le> 2 * x" and "2 * x < pow2 (b + 1)"
        by (simp_all add: b_def)
      moreover note c d pow2_Suc [of b]
      ultimately show ?thesis unfolding eq by (intro conjI) linarith+
    next
      case False
      with \<open>\<not> 2 \<le> x\<close> show ?thesis using pow2_Suc [of 0] by (simp add: pow2_0)
    qed
  qed
qed

lemma binade_tiny: "x < pow2 (- int n) \<Longrightarrow> binade n x = - int n"
proof (induction n arbitrary: x)
  case 0
  then show ?case by simp
next
  case (Suc n)
  have "- int n = - int (Suc n) + 1" by simp
  then have B: "pow2 (- int n) = 2 * pow2 (- int (Suc n))" by (metis pow2_Suc)
  have "pow2 (- int (Suc n)) \<le> pow2 0" by (rule pow2_le) simp
  with Suc.prems have small: "x < 1" by (simp add: pow2_0)
  from Suc.prems B have "2 * x < pow2 (- int n)" by simp
  then have "binade n (2 * x) = - int n" by (rule Suc.IH)
  with small show ?case by simp
qed

lemma ulp_exp_normal:
  assumes "pow2 E \<le> \<bar>x\<bar>" and "\<bar>x\<bar> < pow2 (E + 1)"
    and "- 1022 \<le> E" and "E \<le> 2200"
  shows "ulp_exp x = E - 52"
proof -
  have "pow2 (- int 2200) \<le> pow2 E" using assms(3) by (intro pow2_le) simp
  with assms(1) have lo: "pow2 (- int 2200) \<le> \<bar>x\<bar>" by simp
  have "pow2 (E + 1) \<le> pow2 (int 2200 + 1)" using assms(4) by (intro pow2_le) simp
  with assms(2) have hi: "\<bar>x\<bar> < pow2 (int 2200 + 1)" by simp
  from binade_spec [OF lo hi] have a: "pow2 (binade 2200 \<bar>x\<bar>) \<le> \<bar>x\<bar>"
    and b: "\<bar>x\<bar> < pow2 (binade 2200 \<bar>x\<bar> + 1)" by simp_all
  from a assms(2) have "pow2 (binade 2200 \<bar>x\<bar>) < pow2 (E + 1)" by simp
  then have "binade 2200 \<bar>x\<bar> < E + 1" by (rule pow2_less_D)
  moreover from assms(1) b have "pow2 E < pow2 (binade 2200 \<bar>x\<bar> + 1)" by simp
  then have "E < binade 2200 \<bar>x\<bar> + 1" by (rule pow2_less_D)
  ultimately have "binade 2200 \<bar>x\<bar> = E" by simp
  with assms(3) show ?thesis by (simp add: ulp_exp_def)
qed

lemma ulp_exp_subnormal:
  assumes "\<bar>x\<bar> < pow2 (- 1022)"
  shows "ulp_exp x = - 1074"
proof (cases "pow2 (- int 2200) \<le> \<bar>x\<bar>")
  case True
  have "pow2 (- 1022) \<le> pow2 (int 2200 + 1)" by (rule pow2_le) simp
  with assms have hi: "\<bar>x\<bar> < pow2 (int 2200 + 1)" by simp
  from binade_spec [OF True hi] have "pow2 (binade 2200 \<bar>x\<bar>) \<le> \<bar>x\<bar>" by simp
  with assms have "pow2 (binade 2200 \<bar>x\<bar>) < pow2 (- 1022)" by simp
  then have "binade 2200 \<bar>x\<bar> < - 1022" by (rule pow2_less_D)
  then show ?thesis by (simp add: ulp_exp_def)
next
  case False
  then have "\<bar>x\<bar> < pow2 (- int 2200)" by simp
  then have "binade 2200 \<bar>x\<bar> = - int 2200" by (rule binade_tiny)
  then show ?thesis by (simp add: ulp_exp_def)
qed

lemma ulp_exp_cases:
  assumes "0 \<le> x" and "x < pow2 2201"
  shows "x < pow2 (ulp_exp x + 53)
       \<and> (ulp_exp x = - 1074 \<or> pow2 (ulp_exp x + 52) \<le> x)"
proof (cases "x < pow2 (- 1022)")
  case True
  with assms have e: "ulp_exp x = - 1074" by (intro ulp_exp_subnormal) simp
  have "pow2 (- 1022) \<le> pow2 (- 1074 + 53)" by (rule pow2_le) simp
  with True have "x < pow2 (- 1074 + 53)" by simp
  with e show ?thesis by simp
next
  case False
  have "pow2 (- int 2200) \<le> pow2 (- 1022)" by (rule pow2_le) simp
  with False assms have lo: "pow2 (- int 2200) \<le> \<bar>x\<bar>" by simp
  have hi: "\<bar>x\<bar> < pow2 (int 2200 + 1)" using assms by simp
  define E where "E = binade 2200 \<bar>x\<bar>"
  from binade_spec [OF lo hi] have a: "pow2 E \<le> \<bar>x\<bar>" and b: "\<bar>x\<bar> < pow2 (E + 1)"
    by (simp_all add: E_def)
  from False b assms have "pow2 (- 1022) < pow2 (E + 1)" by simp
  then have "- 1022 < E + 1" by (rule pow2_less_D)
  then have E1: "- 1022 \<le> E" by simp
  from a hi have "pow2 E < pow2 (int 2200 + 1)" by simp
  then have "E < int 2200 + 1" by (rule pow2_less_D)
  then have E2: "E \<le> 2200" by simp
  from a b E1 E2 have e: "ulp_exp x = E - 52" by (rule ulp_exp_normal)
  have eqs: "E - 52 + 53 = E + 1" "E - 52 + 52 = E" by simp_all
  from a b assms(1) show ?thesis unfolding e eqs by simp
qed

lemma fl_le_pow2:
  assumes "x \<le> pow2 K" and "ulp_exp x \<le> K"
  shows "fl x \<le> pow2 K"
proof -
  define e where "e = ulp_exp x"
  have "pow2 (K - e + e) = pow2 (K - e) * pow2 e" by (rule pow2_split)
  then have K: "pow2 K = pow2 (K - e) * pow2 e" by simp
  have n: "pow2 (K - e) = of_int (2 ^ nat (K - e))"
    using assms(2) by (intro pow2_of_int) (simp add: e_def)
  from assms(1) K have "x / pow2 e \<le> pow2 (K - e)"
    using pow2_pos [of e] by (simp add: pos_divide_le_eq)
  then have "round_even (x / pow2 e) \<le> 2 ^ nat (K - e)"
    unfolding n by (rule round_even_le)
  then have "(of_int (round_even (x / pow2 e)) :: real) \<le> of_int (2 ^ nat (K - e))"
    by (simp only: of_int_le_iff)
  then have "of_int (round_even (x / pow2 e)) * pow2 e \<le> pow2 (K - e) * pow2 e"
    unfolding n using pow2_pos [of e] by (intro mult_right_mono) simp_all
  then show ?thesis unfolding fl_def e_def [symmetric] K .
qed

lemma fl_ge_pow2:
  assumes "pow2 K \<le> x" and "ulp_exp x \<le> K"
  shows "pow2 K \<le> fl x"
proof -
  define e where "e = ulp_exp x"
  have "pow2 (K - e + e) = pow2 (K - e) * pow2 e" by (rule pow2_split)
  then have K: "pow2 K = pow2 (K - e) * pow2 e" by simp
  have n: "pow2 (K - e) = of_int (2 ^ nat (K - e))"
    using assms(2) by (intro pow2_of_int) (simp add: e_def)
  from assms(1) K have "pow2 (K - e) \<le> x / pow2 e"
    using pow2_pos [of e] by (simp add: pos_le_divide_eq)
  then have "2 ^ nat (K - e) \<le> round_even (x / pow2 e)"
    unfolding n by (rule round_even_ge)
  then have "(of_int (2 ^ nat (K - e)) :: real) \<le> of_int (round_even (x / pow2 e))"
    by (simp only: of_int_le_iff)
  then have "pow2 (K - e) * pow2 e \<le> of_int (round_even (x / pow2 e)) * pow2 e"
    unfolding n using pow2_pos [of e] by (intro mult_right_mono) simp_all
  then show ?thesis unfolding fl_def e_def [symmetric] K .
qed

lemma four_less_pow2: "4 < pow2 2201"
proof -
  have "pow2 2 < pow2 2201" by (rule pow2_less) simp
  moreover have "pow2 2 = 4" by (simp add: pow2_def)
  ultimately show ?thesis by simp
qed

lemma fl_mono:
  assumes "0 \<le> x" and "x \<le> y" and "y \<le> 4"
  shows "fl x \<le> fl y"
proof -
  from assms four_less_pow2 have bx: "x < pow2 2201" and by': "y < pow2 2201"
    and y0: "0 \<le> y" by simp_all
  note cx = ulp_exp_cases [OF assms(1) bx] and cy = ulp_exp_cases [OF y0 by']
  consider "ulp_exp x = ulp_exp y" | "ulp_exp x < ulp_exp y" | "ulp_exp y < ulp_exp x"
    by linarith
  then show ?thesis
  proof cases
    case 1
    from assms(2) have "x / pow2 (ulp_exp y) \<le> y / pow2 (ulp_exp y)"
      using pow2_pos [of "ulp_exp y"] by (simp add: divide_right_mono)
    then have "round_even (x / pow2 (ulp_exp y)) \<le> round_even (y / pow2 (ulp_exp y))"
      by (rule round_even_mono)
    then have "(of_int (round_even (x / pow2 (ulp_exp y))) :: real)
        \<le> of_int (round_even (y / pow2 (ulp_exp y)))" by (simp only: of_int_le_iff)
    then show ?thesis unfolding fl_def 1 using pow2_pos [of "ulp_exp y"]
      by (intro mult_right_mono) simp_all
  next
    case 2
    have "- 1074 \<le> ulp_exp x" by (simp add: ulp_exp_def)
    with 2 cy have lo: "pow2 (ulp_exp y + 52) \<le> y" by auto
    from cx have "x \<le> pow2 (ulp_exp x + 53)" by simp
    then have "fl x \<le> pow2 (ulp_exp x + 53)" by (rule fl_le_pow2) simp
    also have "\<dots> \<le> pow2 (ulp_exp y + 52)" using 2 by (intro pow2_le) simp
    also have "\<dots> \<le> fl y" using lo by (rule fl_ge_pow2) simp
    finally show ?thesis .
  next
    case 3
    have "- 1074 \<le> ulp_exp y" by (simp add: ulp_exp_def)
    with 3 cx have "pow2 (ulp_exp x + 52) \<le> x" by auto
    with assms(2) cy have "pow2 (ulp_exp x + 52) < pow2 (ulp_exp y + 53)" by simp
    then have "ulp_exp x + 52 < ulp_exp y + 53" by (rule pow2_less_D)
    with 3 show ?thesis by simp
  qed
qed

lemma double_below_one:
  assumes "is_double r" and "0 \<le> r" and "r < 1"
  shows "r \<le> 1 - 1 / 2 ^ 53"
proof (rule ccontr)
  assume "\<not> r \<le> 1 - 1 / 2 ^ 53"
  then have big: "1 - 1 / 2 ^ 53 < r" by simp
  then have "1 / 2 \<le> r" by simp
  then have "pow2 (- 1) \<le> \<bar>r\<bar>" by (simp add: pow2_def)
  moreover have "\<bar>r\<bar> < pow2 (- 1 + 1)" using assms by (simp add: pow2_def)
  ultimately have "ulp_exp r = - 1 - 52" by (rule ulp_exp_normal) simp_all
  then have e: "ulp_exp r = - 53" by simp
  define n where "n = round_even (r / pow2 (- 53))"
  from assms(1) have "of_int n * pow2 (- 53) = r"
    by (simp add: is_double_def fl_def e n_def)
  then have r: "r = of_int n / 2 ^ 53" by (simp add: pow2_def field_simps)
  from big have "2 ^ 53 - 1 < r * 2 ^ 53" by (simp add: field_simps)
  with r have "(2 ^ 53 - 1 :: real) < of_int n" by simp
  then have "(of_int (2 ^ 53 - 1) :: real) < of_int n" by simp
  then have n1: "2 ^ 53 - 1 < n" by (simp only: of_int_less_iff)
  from assms(3) r have "(of_int n :: real) < 2 ^ 53" by (simp add: field_simps)
  then have "(of_int n :: real) < of_int (2 ^ 53)" by simp
  then have "n < 2 ^ 53" by (simp only: of_int_less_iff)
  with n1 show False by simp
qed

lemma binade_unfold:
  "binade n x =
     (if n = 0 then 0
      else if 2 \<le> x then binade (n - 1) (x / 2) + 1
      else if x < 1 then binade (n - 1) (2 * x) - 1
      else 0)"
  by (cases n) simp_all

lemmas eval_fl = fl_def pow2_def ulp_exp_def binade_unfold round_even_def Let_def

lemma fl_0: "fl 0 = 0"
  by (simp add: eval_fl)

lemma fl_2: "fl 2 = 2"
  by (simp add: eval_fl)

lemma fl_1_5: "fl (3/2) = 3/2"
  by (simp add: eval_fl)

lemma fl_0_5: "fl (1/2) = 1/2"
  by (simp add: eval_fl)

lemma fl_0_8: "fl (4/5) = 3602879701896397 / 4503599627370496"
  by (simp add: eval_fl)

lemma fl_0_85: "fl (17/20) = 7656119366529843 / 9007199254740992"
  by (simp add: eval_fl)

lemma fl_0_6: "fl (3/5) = 5404319552844595 / 9007199254740992"
  by (simp add: eval_fl)

lemma fl_top_twice: "fl ((1 - 1 / 2 ^ 53) * 2) = 2 - 1 / 2 ^ 52"
  by (simp add: eval_fl)

lemma fl_top_commercial: "fl (2 - 1 / 2 ^ 52 + 3/2) = 7/2"
  by (simp add: eval_fl)

lemma fl_top_scaled:
  "fl ((1 - 1 / 2 ^ 53) * (3602879701896397 / 4503599627370496))
     = 7205759403792793 / 9007199254740992"
  by (simp add: eval_fl)

lemma fl_top_residential:
  "fl (7205759403792793 / 9007199254740992 + 1/2) = 1463669878895411 / 1125899906842624"
  by (simp add: eval_fl)

lemma is_double_example: "is_double (7/8)" "is_double (5/8)" "is_double (1/2)"
  by (simp_all add: is_double_def eval_fl)

lemma is_double_top: "is_double (1 - 1 / 2 ^ 53)"
  by (simp add: is_double_def eval_fl)

lemma commercial_height:
  assumes "is_double r" and "0 \<le> r" and "r < 1"
  shows "3/2 \<le> fl (fl (r * 2) + 3/2) \<and> fl (fl (r * 2) + 3/2) \<le> 7/2"
proof -
  from assms have top: "r \<le> 1 - 1 / 2 ^ 53" by (rule double_below_one)
  have "fl 0 \<le> fl (r * 2)" using assms by (intro fl_mono) simp_all
  then have lo: "0 \<le> fl (r * 2)" by (simp add: fl_0)
  have "fl (r * 2) \<le> fl ((1 - 1 / 2 ^ 53) * 2)"
    using assms(2) top by (intro fl_mono) simp_all
  then have hi: "fl (r * 2) \<le> 2 - 1 / 2 ^ 52" by (simp only: fl_top_twice)
  have "fl (3/2) \<le> fl (fl (r * 2) + 3/2)" using lo hi by (intro fl_mono) simp_all
  moreover note fl_1_5
  moreover have "fl (fl (r * 2) + 3/2) \<le> fl (2 - 1 / 2 ^ 52 + 3/2)"
    using lo hi by (intro fl_mono) simp_all
  ultimately show ?thesis by (simp only: fl_top_commercial)
qed

lemma residential_height:
  assumes "is_double r" and "0 \<le> r" and "r < 1"
  shows "1/2 \<le> fl (fl (r * (3602879701896397 / 4503599627370496)) + 1/2)
       \<and> fl (fl (r * (3602879701896397 / 4503599627370496)) + 1/2) < 13/10"
proof -
  define a :: real where "a = 3602879701896397 / 4503599627370496"
  have a: "0 \<le> a" "a \<le> 1" by (simp_all add: a_def)
  from assms have top: "r \<le> 1 - 1 / 2 ^ 53" by (rule double_below_one)
  have ra: "0 \<le> r * a" using assms(2) a(1) by simp
  have "r * a \<le> (1 - 1 / 2 ^ 53) * a" using top a(1) by (rule mult_right_mono)
  moreover have "(1 - 1 / 2 ^ 53) * a \<le> 4" by (simp add: a_def)
  ultimately have "fl (r * a) \<le> fl ((1 - 1 / 2 ^ 53) * a)" using ra by (intro fl_mono)
  then have hi: "fl (r * a) \<le> 7205759403792793 / 9007199254740992"
    unfolding a_def by (simp only: fl_top_scaled)
  have "(1 - 1 / 2 ^ 53) * a \<le> 4" by (simp add: a_def)
  with ra \<open>r * a \<le> (1 - 1 / 2 ^ 53) * a\<close> have "fl 0 \<le> fl (r * a)"
    by (intro fl_mono) simp_all
  then have lo: "0 \<le> fl (r * a)" by (simp add: fl_0)
  have "fl (1/2) \<le> fl (fl (r * a) + 1/2)" using lo hi by (intro fl_mono) simp_all
  moreover note fl_0_5
  moreover have "fl (fl (r * a) + 1/2) \<le> fl (7205759403792793 / 9007199254740992 + 1/2)"
    using lo hi by (intro fl_mono) simp_all
  ultimately have "1/2 \<le> fl (fl (r * a) + 1/2)"
    and "fl (fl (r * a) + 1/2) \<le> 1463669878895411 / 1125899906842624"
    by (simp_all only: fl_top_residential)
  then show ?thesis unfolding a_def by simp
qed

section \<open>Heights in the city grid\<close>

lemma cityData_cell_height:
  assumes "\<forall>k. is_double (rnd k) \<and> 0 \<le> rnd k \<and> rnd k < 1"
  shows "height_ok (fst (cityData_cell N s g rnd x z k))"
proof -
  have r: "is_double (rnd (k + 1))" "0 \<le> rnd (k + 1)" "rnd (k + 1) < 1"
    using assms by auto
  note c = commercial_height [OF r] and d = residential_height [OF r]
  show ?thesis
    using c d
    by (simp add: cityData_cell_def Math_random_def height_ok_def Let_def
        fl_2 fl_1_5 fl_0_5 fl_0_8)
qed

lemma cityData_loop_z_height:
  "\<forall>k. is_double (rnd k) \<and> 0 \<le> rnd k \<and> rnd k < 1 \<Longrightarrow> list_all height_ok acc
   \<Longrightarrow> list_all height_ok (fst (cityData_loop_z N s g rnd x z acc k))"
proof (induction N s g rnd x z acc k rule: cityData_loop_z.induct)
  case (1 N s g rnd x z acc k)
  show ?case
  proof (cases "z < N")
    case True
    have "list_all height_ok (acc @ [fst (cityData_cell N s g rnd x z k)])"
      using "1.prems" by (simp add: cityData_cell_height)
    with True "1.prems" have "list_all height_ok
        (fst (cityData_loop_z N s g rnd x (z + 1) (acc @ [fst (cityData_cell N s g rnd x z k)])
               (snd (cityData_cell N s g rnd x z k))))"
      by (intro "1.IH") simp_all
    with True show ?thesis by (subst cityData_loop_z.simps) simp
  next
    case False
    with "1.prems" show ?thesis by (subst cityData_loop_z.simps) simp
  qed
qed

lemma cityData_loop_x_height:
  "\<forall>k. is_double (rnd k) \<and> 0 \<le> rnd k \<and> rnd k < 1 \<Longrightarrow> list_all height_ok acc
   \<Longrightarrow> list_all height_ok (fst (cityData_loop_x N s g rnd x acc k))"
proof (induction N s g rnd x acc k rule: cityData_loop_x.induct)
  case (1 N s g rnd x acc k)
  show ?case
  proof (cases "x < N")
    case True
    have "list_all height_ok (fst (cityData_loop_z N s g rnd x 0 acc k))"
      using "1.prems" by (intro cityData_loop_z_height) simp_all
    with True "1.prems" have "list_all height_ok
        (fst (cityData_loop_x N s g rnd (x + 1) (fst (cityData_loop_z N s g rnd x 0 acc k))
               (snd (cityData_loop_z N s g rnd x 0 acc k))))"
      by (intro "1.IH") simp_all
    with True show ?thesis by (subst cityData_loop_x.simps) simp
  next
    case False
    with "1.prems" show ?thesis by (subst cityData_loop_x.simps) simp
  qed
qed

lemma cityData_height:
  "\<forall>k. is_double (rnd k) \<and> 0 \<le> rnd k \<and> rnd k < 1 \<Longrightarrow> p \<in> set (cityData N s g rnd)
   \<Longrightarrow> height_ok p"
  using cityData_loop_x_height [of rnd "[]" N s g 0 0]
  by (simp add: cityData_def list_all_iff)

lemmas fl_literals = fl_2 fl_1_5 fl_0_5 fl_0_8 fl_0_85 fl_0_6

lemma fl_values:
  "fl 1 = 1" "fl (5/2) = 5/2"
  "fl (3602879701896397 / 9007199254740992) = 3602879701896397 / 9007199254740992"
  "fl (8106479329266893 / 9007199254740992) = 8106479329266893 / 9007199254740992"
  "fl (9007199254740991 / 4503599627370496) = 9007199254740991 / 4503599627370496"
  "fl (15762598695796735 / 4503599627370496) = 7/2"
  by (simp_all add: eval_fl)

lemma cityData_example:
  "cityData 2 1 (3/20) example_draws =
     [\<lparr>plot_id = ''0-0'', position = (- (23/20), 0, - (23/20)),
       type_city = Commercial, height = 5/2\<rparr>,
      \<lparr>plot_id = ''0-1'', position = (- (23/20), 0, 0),
       type_city = Residential, height = 8106479329266893 / 9007199254740992\<rparr>,
      \<lparr>plot_id = ''1-0'', position = (0, 0, - (23/20)), type_city = Empty, height = 0\<rparr>,
      \<lparr>plot_id = ''1-1'', position = (0, 0, 0), type_city = Empty, height = 0\<rparr>]"
  by (simp add: eval_city example_draws_def fl_literals fl_values)

lemma cityData_top:
  "cityData 1 1 (3/20) top_draws =
     [\<lparr>plot_id = ''0-0'', position = (- (23/40), 0, - (23/40)),
       type_city = Commercial, height = 7/2\<rparr>]"
  by (simp add: eval_city top_draws_def fl_literals fl_values)

text \<open>
  Claim C5, as stated, fails at the open upper end of the commercial range. The
  largest double below \<open>1\<close> is \<open>1 - 2\<^sup>-\<^sup>5\<^sup>3\<close>; for this draw the sum
  \<open>2 - 2\<^sup>-\<^sup>5\<^sup>2 + 1.5\<close> lies halfway between two doubles and rounds to \<open>3.5\<close>, so
  the commercial height is \<open>3.5\<close> itself.
\<close>

theorem city_heights_counterexample:
  "is_double (top_draws 0) \<and> 0 \<le> top_draws 0 \<and> top_draws 0 < 1
   \<and> is_double (top_draws 1) \<and> 0 \<le> top_draws 1 \<and> top_draws 1 < 1
   \<and> type_city (cityData 1 1 (3/20) top_draws ! 0) = Commercial
   \<and> \<not> height (cityData 1 1 (3/20) top_draws ! 0) < 3.5"
proof -
  have d0: "top_draws 0 = 7/8" and d1: "top_draws 1 = 1 - 1 / 2 ^ 53"
    by (simp_all add: top_draws_def)
  have "is_double (top_draws 0)" "is_double (top_draws 1)"
    unfolding d0 d1 by (rule is_double_example is_double_top)+
  moreover have "0 \<le> top_draws 0" "top_draws 0 < 1" "0 \<le> top_draws 1" "top_draws 1 < 1"
    by (simp_all add: top_draws_def)
  ultimately show ?thesis by (simp add: cityData_top)
qed

text \<open>
  Claim C5, amended. In double precision arithmetic, when every draw is a double in
  \<open>[0, 1)\<close>, every record of the city generator satisfies: an empty plot has height
  \<open>0\<close>, a residential height lies in \<open>[0.5, 1.3)\<close>, a commercial height lies in
  \<open>[1.5, 3.5]\<close>; hence every plot that is not empty has a positive height and every
  commercial height exceeds every residential height.
\<close>

theorem city_heights:
  assumes "\<forall>k. is_double (rnd k) \<and> 0 \<le> rnd k \<and> rnd k < 1"
    and "p \<in> set (cityData N PLOT_SIZE GAP rnd)"
    and "q \<in> set (cityData N PLOT_SIZE GAP rnd)"
  shows "(type_city p = Empty \<longrightarrow> height p = 0)
       \<and> (type_city p = Residential \<longrightarrow> 0.5 \<le> height p \<and> height p < 1.3)
       \<and> (type_city p = Commercial \<longrightarrow> 1.5 \<le> height p \<and> height p \<le> 3.5)
       \<and> (type_city p \<noteq> Empty \<longrightarrow> 0 < height p)
       \<and> (type_city p = Commercial \<and> type_city q = Residential \<longrightarrow> height q < height p)"
proof -
  have "height_ok p" "height_ok q" using assms by (auto intro: cityData_height)
  then show ?thesis
    by (cases "type_city p"; cases "type_city q") (simp_all add: height_ok_def)
qed

theorem city_heights_witness:
  "(\<forall>k. is_double (example_draws k) \<and> 0 \<le> example_draws k \<and> example_draws k < 1)
   \<and> cityData 2 1 (3/20) example_draws ! 0 \<in> set (cityData 2 1 (3/20) example_draws)
   \<and> cityData 2 1 (3/20) example_draws ! 1 \<in> set (cityData 2 1 (3/20) example_draws)
   \<and> cityData 2 1 (3/20) example_draws ! 2 \<in> set (cityData 2 1 (3/20) example_draws)
   \<and> type_city (cityData 2 1 (3/20) example_draws ! 0) = Commercial
   \<and> type_city (cityData 2 1 (3/20) example_draws ! 1) = Residential
   \<and> type_city (cityData 2 1 (3/20) example_draws ! 2) = Empty
   \<and> height (cityData 2 1 (3/20) example_draws ! 2) = 0
   \<and> 0.5 \<le> height (cityData 2 1 (3/20) example_draws ! 1)
   \<and> height (cityData 2 1 (3/20) example_draws ! 1) < 1.3
   \<and> 1.5 \<le> height (cityData 2 1 (3/20) example_draws ! 0)
   \<and> height (cityData 2 1 (3/20) example_draws ! 0) \<le> 3.5
   \<and> height (cityData 2 1 (3/20) example_draws ! 1)
       < height (cityData 2 1 (3/20) example_draws ! 0)"
proof -
  have d: "\<forall>k. is_double (example_draws k) \<and> 0 \<le> example_draws k \<and> example_draws k < 1"
    by (simp add: example_draws_def is_double_example)
  have m0: "cityData 2 1 (3/20) example_draws ! 0 \<in> set (cityData 2 1 (3/20) example_draws)"
    and m1: "cityData 2 1 (3/20) example_draws ! 1 \<in> set (cityData 2 1 (3/20) example_draws)"
    and m2: "cityData 2 1 (3/20) example_draws ! 2 \<in> set (cityData 2 1 (3/20) example_draws)"
    by (simp_all add: cityData_example)
  have t: "type_city (cityData 2 1 (3/20) example_draws ! 0) = Commercial"
    "type_city (cityData 2 1 (3/20) example_draws ! 1) = Residential"
    "type_city (cityData 2 1 (3/20) example_draws ! 2) = Empty"
    by (simp_all add: cityData_example)
  show ?thesis
    using d m0 m1 m2 t city_heights [OF d m0 m1] city_heights [OF d m1 m1]
      city_heights [OF d m2 m2]
    by simp
qed

section \<open>Selection\<close>

lemma at_most_one_with_id:
  "distinct (map plot_id ps) \<Longrightarrow> length (filter (\<lambda>p. plot_id p = i) ps) \<le> 1"
proof (induction ps)
  case Nil
  then show ?case by simp
next
  case (Cons p ps)
  show ?case
  proof (cases "plot_id p = i")
    case True
    with Cons.prems have "i \<notin> plot_id ` set ps" by simp
    then have "filter (\<lambda>p. plot_id p = i) ps = []"
      unfolding filter_empty_conv by blast
    with True show ?thesis by simp
  next
    case False
    with Cons show ?thesis by simp
  qed
qed

lemma at_most_one_selected:
  "distinct (map plot_id ps) \<Longrightarrow> length (filter (plot_isSelected s) ps) \<le> 1"
proof (cases "selectedPlot s")
  case None
  then show ?thesis by (simp add: plot_isSelected_def)
next
  case (Some i)
  assume "distinct (map plot_id ps)"
  then have "length (filter (\<lambda>p. plot_id p = i) ps) \<le> 1" by (rule at_most_one_with_id)
  moreover have "filter (plot_isSelected s) ps = filter (\<lambda>p. plot_id p = i) ps"
    using Some by (auto simp: plot_isSelected_def intro: filter_cong)
  ultimately show ?thesis by simp
qed

lemma distinct_ids_neq:
  "distinct (map plot_id ps) \<Longrightarrow> a \<in> set ps \<Longrightarrow> b \<in> set ps \<Longrightarrow> b \<noteq> a
   \<Longrightarrow> plot_id b \<noteq> plot_id a"
  by (auto simp: distinct_map inj_on_def)

lemma distinct_plots_ids: "distinct (map plot_id (plots N s g))"
  by (simp only: plots_ids) (simp add: distinct_grid_ids)

text \<open>
  Claim C6. In the basic scene, when plot \<open>a\<close> is selected, a click on another plot
  \<open>b\<close> makes the scene-wide selection \<open>b\<close>'s id: afterwards \<open>b\<close>'s \<open>isSelected\<close>
  flag is true and \<open>a\<close>'s is false. In the state after the click, and in every
  state reached from the initial one by any sequence of clicks and pointer events,
  at most one plot of the grid has its \<open>isSelected\<close> flag true.
\<close>

theorem select_other_plot:
  assumes "a \<in> set (plots N PLOT_SIZE GAP)" and "b \<in> set (plots N PLOT_SIZE GAP)"
    and "b \<noteq> a" and "plot_isSelected s a"
  shows "selectedPlot (handle s (Click (plot_id b))) = Some (plot_id b)
       \<and> plot_isSelected (handle s (Click (plot_id b))) b
       \<and> \<not> plot_isSelected (handle s (Click (plot_id b))) a
       \<and> length (filter (plot_isSelected (handle s (Click (plot_id b))))
            (plots N PLOT_SIZE GAP)) \<le> 1
       \<and> length (filter (plot_isSelected (foldl handle initial_scene es))
            (plots N PLOT_SIZE GAP)) \<le> 1"
proof -
  have "plot_id b \<noteq> plot_id a"
    using distinct_plots_ids assms(1,2,3) by (rule distinct_ids_neq)
  moreover have "length (filter (plot_isSelected t) (plots N PLOT_SIZE GAP)) \<le> 1" for t
    using distinct_plots_ids by (rule at_most_one_selected)
  ultimately show ?thesis
    by (simp add: plot_isSelected_def)
qed

theorem select_other_plot_witness:
  "\<lparr>plot_id = ''0-0'', position = (- (11/10), 0, - (11/10))\<rparr> \<in> set (plots 2 1 (1/10))
   \<and> \<lparr>plot_id = ''0-1'', position = (- (11/10), 0, 0)\<rparr> \<in> set (plots 2 1 (1/10))
   \<and> \<lparr>plot_id = ''0-1'', position = (- (11/10), 0, 0)\<rparr>
       \<noteq> \<lparr>plot_id = ''0-0'', position = (- (11/10), 0, - (11/10))\<rparr>
   \<and> plot_isSelected (handle initial_scene (Click ''0-0''))
        \<lparr>plot_id = ''0-0'', position = (- (11/10), 0, - (11/10))\<rparr>
   \<and> selectedPlot (handle (handle initial_scene (Click ''0-0'')) (Click ''0-1'')) = Some ''0-1''
   \<and> plot_isSelected (handle (handle initial_scene (Click ''0-0'')) (Click ''0-1''))
        \<lparr>plot_id = ''0-1'', position = (- (11/10), 0, 0)\<rparr>
   \<and> \<not> plot_isSelected (handle (handle initial_scene (Click ''0-0'')) (Click ''0-1''))
        \<lparr>plot_id = ''0-0'', position = (- (11/10), 0, - (11/10))\<rparr>
   \<and> length (filter (plot_isSelected (foldl handle initial_scene
          [PointerOver ''0-0'', Click ''0-0'', PointerOut ''0-0'', Click ''0-1'']))
        (plots 2 1 (1/10))) \<le> 1"
proof -
  have a: "\<lparr>plot_id = ''0-0'', position = (- (11/10), 0, - (11/10))\<rparr> \<in> set (plots 2 1 (1/10))"
    and b: "\<lparr>plot_id = ''0-1'', position = (- (11/10), 0, 0)\<rparr> \<in> set (plots 2 1 (1/10))"
    by (simp_all add: plots_2x2)
  have n: "\<lparr>plot_id = ''0-1'', position = (- (11/10), 0, 0)\<rparr>
       \<noteq> \<lparr>plot_id = ''0-0'', position = (- (11/10), 0, - (11/10))\<rparr>"
    by simp
  have s: "plot_isSelected (handle initial_scene (Click ''0-0''))
        \<lparr>plot_id = ''0-0'', position = (- (11/10), 0, - (11/10))\<rparr>"
    by (simp add: plot_isSelected_def)
  show ?thesis
    using a b n s
      select_other_plot [OF a b n s,
        of "[PointerOver ''0-0'', Click ''0-0'', PointerOut ''0-0'', Click ''0-1'']"]
    by simp
qed

text \<open>
  Claim C9. Selection is idempotent: in a state where the plot with id \<open>i\<close> is already
  selected, a click on that plot leaves the whole interaction state unchanged, in
  the grid scenes and in the map clone.
\<close>

theorem reselect_idempotent:
  "(selectedPlot s = Some i \<longrightarrow> handle s (Click i) = s)
   \<and> (selectedId m = Some j \<longrightarrow> map_handle m (MapClick j) = m)"
  by simp

theorem reselect_idempotent_witness:
  "selectedPlot (handle initial_scene (Click ''0-0'')) = Some ''0-0''
   \<and> handle (handle initial_scene (Click ''0-0'')) (Click ''0-0'')
       = handle initial_scene (Click ''0-0'')
   \<and> selectedId (map_handle (initial_map_state []) (MapClick 7)) = Some 7
   \<and> map_handle (map_handle (initial_map_state []) (MapClick 7)) (MapClick 7)
       = map_handle (initial_map_state []) (MapClick 7)"
  using reselect_idempotent [of "handle initial_scene (Click ''0-0'')" "''0-0''"
      "map_handle (initial_map_state []) (MapClick 7)" 7]
  by simp

section \<open>Pointer events in the map clone\<close>

text \<open>
  Claim C10. In the map clone a pointer-enter or pointer-leave event changes nothing
  of the state, and so nothing of what is rendered; the state has no hover flag. A
  click sets \<open>selectedId\<close> to the clicked id and leaves the zoom and the lands as they
  are; the zoom buttons change the zoom only, to \<open>min (zoom + 5) 50\<close> and
  \<open>max (zoom - 5) 10\<close>; no event changes the lands.
\<close>

theorem map_clone_pointer_events_frame:
  "map_handle s (MapPointerEnter i) = s
   \<and> map_handle s (MapPointerLeave i) = s
   \<and> render_lands (selectedId (map_handle s (MapPointerEnter i))) (map_lands s)
       = render_lands (selectedId s) (map_lands s)
   \<and> render_lands (selectedId (map_handle s (MapPointerLeave i))) (map_lands s)
       = render_lands (selectedId s) (map_lands s)
   \<and> map_handle s (MapClick i) = s\<lparr>selectedId := Some i\<rparr>
   \<and> zoom (map_handle s (MapClick i)) = zoom s
   \<and> map_lands (map_handle s (MapClick i)) = map_lands s
   \<and> map_handle s ZoomIn = s\<lparr>zoom := min (zoom s + 5) 50\<rparr>
   \<and> map_handle s ZoomOut = s\<lparr>zoom := max (zoom s - 5) 10\<rparr>
   \<and> selectedId (map_handle s ZoomIn) = selectedId s
   \<and> selectedId (map_handle s ZoomOut) = selectedId s
   \<and> map_lands (map_handle s ZoomIn) = map_lands s
   \<and> map_lands (map_handle s ZoomOut) = map_lands s
   \<and> map_lands (map_handle s e) = map_lands s"
  by (cases e) simp_all

section \<open>Broken shapes\<close>

lemma lineTo_loop_total: "i \<le> length pts \<Longrightarrow> \<exists>s'. lineTo_loop pts i s = Inr s'"
proof (induction pts i s rule: lineTo_loop.induct)
  case (1 pts i s)
  show ?case
  proof (cases "i < length pts")
    case True
    then have "\<exists>s'. lineTo_loop pts (i + 1) (s @ [pts ! i]) = Inr s'"
      by (intro "1.IH") (simp_all add: shape_at_def)
    with True show ?thesis
      by (subst lineTo_loop.simps) (simp add: shape_at_def)
  next
    case False
    then show ?thesis by (subst lineTo_loop.simps) simp
  qed
qed

lemma LandPolygon_broken: "shape_broken sh \<Longrightarrow> LandPolygon sh col nm sel = Inr None"
  by (simp add: LandPolygon_def)

lemma LandPolygon_renders:
  "\<not> shape_broken sh \<Longrightarrow> \<exists>el. LandPolygon sh col nm sel = Inr (Some el)"
proof -
  assume nb: "\<not> shape_broken sh"
  then obtain pts where sh: "sh = Some pts" and len: "3 \<le> length pts"
    by (auto simp: shape_broken_def split: option.splits)
  from len have "1 \<le> length pts" and ne: "pts \<noteq> []" by auto
  then obtain s' where "lineTo_loop pts 1 [pts ! 0] = Inr s'"
    using lineTo_loop_total [of 1 pts "[pts ! 0]"] by auto
  with nb sh ne show ?thesis
    by (simp add: LandPolygon_def shape_at_def)
qed

lemma render_lands_keys:
  "\<exists>out. render_lands sel ls = Inr out
     \<and> map fst out = map land_id (filter (\<lambda>l. \<not> shape_broken (shape l)) ls)"
proof (induction ls)
  case Nil
  then show ?case by simp
next
  case (Cons l ls)
  then obtain out where out: "render_lands sel ls = Inr out"
    "map fst out = map land_id (filter (\<lambda>l. \<not> shape_broken (shape l)) ls)" by auto
  show ?case
  proof (cases "shape_broken (shape l)")
    case True
    then show ?thesis using out by (simp add: LandPolygon_broken)
  next
    case False
    then obtain el where "LandPolygon (shape l) (color l) (name l) (sel = Some (land_id l))
        = Inr (Some el)"
      using LandPolygon_renders by blast
    with False out show ?thesis by simp
  qed
qed

text \<open>
  Claim C7. A shape is broken when it is missing or has fewer than three points.
  \<^verbatim>\<open>LandPolygon\<close> on a broken shape returns nothing to render and raises no
  error. Rendering any list of lands raises no error, and the rendered children are
  exactly those of the lands whose shape is not broken, in order; so, the ids being
  distinct, a land with a broken shape is not among them.
\<close>

theorem broken_shape_skipped:
  "shape_broken sh = (sh = None \<or> (\<exists>pts. sh = Some pts \<and> length pts < 3))
   \<and> (shape_broken sh \<longrightarrow> LandPolygon sh col nm sel = Inr None)
   \<and> (\<exists>out. render_lands selId ls = Inr out
          \<and> map fst out = map land_id (filter (\<lambda>l. \<not> shape_broken (shape l)) ls)
          \<and> (\<forall>l \<in> set ls. shape_broken (shape l) \<and> distinct (map land_id ls)
                \<longrightarrow> land_id l \<notin> fst ` set out))"
proof (intro conjI impI)
  show "shape_broken sh = (sh = None \<or> (\<exists>pts. sh = Some pts \<and> length pts < 3))"
    by (cases sh) (simp_all add: shape_broken_def)
next
  assume "shape_broken sh"
  then show "LandPolygon sh col nm sel = Inr None" by (rule LandPolygon_broken)
next
  obtain out where out: "render_lands selId ls = Inr out"
    "map fst out = map land_id (filter (\<lambda>l. \<not> shape_broken (shape l)) ls)"
    using render_lands_keys by blast
  have "land_id l \<notin> fst ` set out"
    if "l \<in> set ls" "shape_broken (shape l)" "distinct (map land_id ls)" for l
  proof
    assume "land_id l \<in> fst ` set out"
    then have "land_id l \<in> set (map fst out)" by simp
    then have "land_id l \<in> land_id ` {l \<in> set ls. \<not> shape_broken (shape l)}"
      by (simp add: out(2))
    then obtain l' where "l' \<in> set ls" "\<not> shape_broken (shape l')" "land_id l' = land_id l"
      by auto
    moreover from that(3) have "inj_on land_id (set ls)" by (simp add: distinct_map)
    ultimately have "l' = l" using that(1) by (auto dest: inj_onD)
    with \<open>\<not> shape_broken (shape l')\<close> that(2) show False by simp
  qed
  with out show "\<exists>out. render_lands selId ls = Inr out
          \<and> map fst out = map land_id (filter (\<lambda>l. \<not> shape_broken (shape l)) ls)
          \<and> (\<forall>l \<in> set ls. shape_broken (shape l) \<and> distinct (map land_id ls)
                \<longrightarrow> land_id l \<notin> fst ` set out)"
    by blast
qed

theorem broken_shape_skipped_witness:
  "shape_broken None
   \<and> LandPolygon None ''#F8F9FA'' ''Greenwood District 0'' False = Inr None
   \<and> example_lands ! 1 \<in> set example_lands
   \<and> shape_broken (shape (example_lands ! 1))
   \<and> distinct (map land_id example_lands)
   \<and> (\<exists>out. render_lands (Some 2) example_lands = Inr out \<and> map fst out = [2]
          \<and> land_id (example_lands ! 1) \<notin> fst ` set out)"
proof -
  have b0: "shape_broken None" by (simp add: shape_broken_def)
  have m: "example_lands ! 1 \<in> set example_lands"
    and b1: "shape_broken (shape (example_lands ! 1))"
    and d: "distinct (map land_id example_lands)"
    and f: "map land_id (filter (\<lambda>l. \<not> shape_broken (shape l)) example_lands) = [2]"
    by (simp_all add: example_lands_def shape_broken_def)
  from broken_shape_skipped [of None "''#F8F9FA''" "''Greenwood District 0''" False
      "Some 2" example_lands]
  have p: "LandPolygon None ''#F8F9FA'' ''Greenwood District 0'' False = Inr None"
    and "\<exists>out. render_lands (Some 2) example_lands = Inr out
          \<and> map fst out = map land_id (filter (\<lambda>l. \<not> shape_broken (shape l)) example_lands)
          \<and> (\<forall>l \<in> set example_lands. shape_broken (shape l) \<and> distinct (map land_id example_lands)
                \<longrightarrow> land_id l \<notin> fst ` set out)"
    using b0 by simp_all
  then obtain out where "render_lands (Some 2) example_lands = Inr out"
    "map fst out = [2]" "land_id (example_lands ! 1) \<notin> fst ` set out"
    using m b1 d f by auto
  with b0 p m b1 d show ?thesis by simp
qed

section \<open>Land names\<close>

lemmas eval_name = generateLandName_def generateLandName_spec_def array_get_def names_def
  types_def number_str_def digits.simps digit_char_def

lemma length_names: "length names = 10"
  by (simp add: names_def)

lemma length_types: "length types = 6"
  by (simp add: types_def)

text \<open>
  Claim C8, as stated, fails: the type list has six words and is indexed by
  \<open>id mod 6\<close>, not by \<open>id mod 10\<close>. For id \<open>10\<close> the code gives
  \<open>Greenwood Grove 10\<close>, indexing both lists by \<open>id mod 10\<close> would give
  \<open>Greenwood District 10\<close>.
\<close>

theorem land_name_mod_10_counterexample:
  "generateLandName 10 = ''Greenwood Grove 10''
   \<and> generateLandName_spec 10 = ''Greenwood District 10''
   \<and> generateLandName 10 \<noteq> generateLandName_spec 10"
  by (simp add: eval_name)

text \<open>
  Claim C8, amended. The display name is a function of the plot's id alone: the word
  of the name list at index \<open>id mod 10\<close>, a space, the word of the type list at index
  \<open>id mod 6\<close>, a space, and the id in decimal. Both indices are within their lists.
\<close>

theorem land_name_deterministic:
  "generateLandName i
     = names ! (i mod 10) @ '' '' @ types ! (i mod 6) @ '' '' @ number_str (int i)
   \<and> i mod 10 < length names \<and> i mod 6 < length types
   \<and> number_str (int i) = digits i"
  by (simp add: generateLandName_def length_names length_types number_str_def)

end
